theory Spec2Isabelle
  imports Complex_Main
begin

section \<open>Origins\<close>

text \<open>
  \<^verbatim>\<open>Endpoint\<close> (src/Endpoint.ts) is an immutable value with four fields. \<^verbatim>\<open>weight\<close> and
  \<^verbatim>\<open>timeoutMs\<close> are JavaScript numbers that the schema only requires to be positive, so they
  are modelled as reals: halving a finite double and taking its floor are exact operations.
\<close>

record Endpoint =
  url :: string
  healthCheckPath :: string
  weight :: real
  timeoutMs :: real

text \<open>
  \<^verbatim>\<open>this.url.replace(/\/$/, "")\<close>: the pattern matches one slash standing at the very end of
  the string, and \<^verbatim>\<open>replace\<close> with a non-global pattern rewrites that single match.
\<close>

definition normalizeUrl :: "string \<Rightarrow> string" where
  "normalizeUrl u = (if u \<noteq> [] \<and> last u = CHR ''/'' then butlast u else u)"

definition normalizedUrl :: "Endpoint \<Rightarrow> string" where
  "normalizedUrl e = normalizeUrl (url e)"

definition healthCheckUrl :: "Endpoint \<Rightarrow> string" where
  "healthCheckUrl e = normalizedUrl e @ healthCheckPath e"

definition buildTargetUrl :: "Endpoint \<Rightarrow> string \<Rightarrow> string \<Rightarrow> string" where
  "buildTargetUrl e pathname search = normalizedUrl e @ pathname @ search"

text \<open>The convenience constructor \<^verbatim>\<open>endpoint(url)\<close> with its defaults.\<close>

definition endpoint :: "string \<Rightarrow> Endpoint" where
  "endpoint u = \<lparr>url = u, healthCheckPath = ''/'', weight = 1, timeoutMs = 30000\<rparr>"

section \<open>Health-probe timeout\<close>

text \<open>
  \<^verbatim>\<open>getHealthCheckTimeout\<close> (HealthChecker.js):
  \<^verbatim>\<open>const halfTimeout = Math.floor(endpoint.timeoutMs / 2);
  return Math.max(1000, Math.min(halfTimeout, 10000));\<close>
\<close>

definition getHealthCheckTimeout :: "Endpoint \<Rightarrow> int" where
  "getHealthCheckTimeout e =
     (let halfTimeout = \<lfloor>timeoutMs e / 2\<rfloor> in max 1000 (min halfTimeout 10000))"

text \<open>
  The wording of the specification, written independently of the code: a value clamped to at
  least \<open>lo\<close> and at most \<open>hi\<close>.
\<close>

definition clamped :: "int \<Rightarrow> int \<Rightarrow> int \<Rightarrow> int" where
  "clamped lo hi x = (if x < lo then lo else if hi < x then hi else x)"

section \<open>Geo origins and the geo selector\<close>

text \<open>
  \<^verbatim>\<open>GeoConfig\<close> is a tagged union with one list of codes per tag. Continent codes are kept as
  strings: \<^verbatim>\<open>matchesCfProperties\<close> compares them with \<^verbatim>\<open>includes\<close> after a type cast only.
\<close>

datatype GeoConfig =
    Continent "string list"
  | Country "string list"
  | Region "string list"
  | Colo "string list"

text \<open>\<^verbatim>\<open>GeoEndpoint\<close> has the four fields of \<^verbatim>\<open>Endpoint\<close> and the field \<^verbatim>\<open>geo\<close>.\<close>

record GeoEndpoint = Endpoint +
  geo :: GeoConfig

definition toEndpoint :: "GeoEndpoint \<Rightarrow> Endpoint" where
  "toEndpoint ge =
     \<lparr>url = url ge, healthCheckPath = healthCheckPath ge, weight = weight ge,
      timeoutMs = timeoutMs ge\<rparr>"

definition geoNormalizedUrl :: "GeoEndpoint \<Rightarrow> string" where
  "geoNormalizedUrl ge = normalizeUrl (url ge)"

definition geoEndpoint :: "string \<Rightarrow> GeoConfig \<Rightarrow> GeoEndpoint" where
  "geoEndpoint u g =
     \<lparr>url = u, healthCheckPath = ''/'', weight = 1, timeoutMs = 30000, geo = g\<rparr>"

text \<open>\<^verbatim>\<open>CfProperties\<close>: every field may be missing.\<close>

record CfProperties =
  continent :: "string option"
  country :: "string option"
  regionCode :: "string option"
  colo :: "string option"

fun includes_opt :: "string list \<Rightarrow> string option \<Rightarrow> bool" where
  "includes_opt codes None = False"
| "includes_opt codes (Some c) = (c \<in> set codes)"

definition matchesCfProperties :: "GeoEndpoint \<Rightarrow> CfProperties \<Rightarrow> bool" where
  "matchesCfProperties ge cf =
     (case geo ge of
        Continent continents \<Rightarrow> includes_opt continents (continent cf)
      | Country countries \<Rightarrow> includes_opt countries (country cf)
      | Region regions \<Rightarrow> includes_opt regions (regionCode cf)
      | Colo colos \<Rightarrow> includes_opt colos (colo cf))"

text \<open>
  The three loops of \<^verbatim>\<open>selectGeoEndpoints\<close> (src/GeoSteering.ts) over the pair
  \<^verbatim>\<open>(orderedEndpoints, seen)\<close>. The first pushes every matched origin and adds its URL to
  \<^verbatim>\<open>seen\<close> without looking at \<^verbatim>\<open>seen\<close>; the other two push only when
  \<^verbatim>\<open>!seen.has(url)\<close>. The key is the raw \<^verbatim>\<open>url\<close> field.
\<close>

definition pushMatched ::
  "Endpoint list \<times> string set \<Rightarrow> GeoEndpoint \<Rightarrow> Endpoint list \<times> string set" where
  "pushMatched acc ge =
     (case acc of (orderedEndpoints, seen) \<Rightarrow>
        (orderedEndpoints @ [toEndpoint ge], insert (url ge) seen))"

definition pushDefault ::
  "Endpoint list \<times> string set \<Rightarrow> Endpoint \<Rightarrow> Endpoint list \<times> string set" where
  "pushDefault acc ep =
     (case acc of (orderedEndpoints, seen) \<Rightarrow>
        if url ep \<notin> seen then (orderedEndpoints @ [ep], insert (url ep) seen)
        else (orderedEndpoints, seen))"

definition pushRemaining ::
  "Endpoint list \<times> string set \<Rightarrow> GeoEndpoint \<Rightarrow> Endpoint list \<times> string set" where
  "pushRemaining acc ge =
     (case acc of (orderedEndpoints, seen) \<Rightarrow>
        if url ge \<notin> seen then (orderedEndpoints @ [toEndpoint ge], insert (url ge) seen)
        else (orderedEndpoints, seen))"

definition selectGeoEndpoints ::
  "GeoEndpoint list \<Rightarrow> CfProperties option \<Rightarrow> Endpoint list \<Rightarrow> Endpoint list" where
  "selectGeoEndpoints geoEndpoints cf defaultEndpoints =
     (case cf of
        None \<Rightarrow>
          if length defaultEndpoints > 0 then defaultEndpoints
          else map toEndpoint geoEndpoints
      | Some c \<Rightarrow>
          (let matched = filter (\<lambda>ge. matchesCfProperties ge c) geoEndpoints in
           if length matched > 0 then
             fst (foldl pushRemaining
                    (foldl pushDefault (foldl pushMatched ([], {}) matched) defaultEndpoints)
                    geoEndpoints)
           else if length defaultEndpoints > 0 then defaultEndpoints
           else map toEndpoint geoEndpoints))"

text \<open>
  The configuration read by \<^verbatim>\<open>getEndpointsToTry\<close> (src/LoadBalancer.ts). \<^verbatim>\<open>steering\<close> has
  the single type \<^verbatim>\<open>"geo"\<close>, so a present \<^verbatim>\<open>steering\<close> is geo steering; a missing
  \<^verbatim>\<open>defaultEndpoints\<close> takes the default \<^verbatim>\<open>[]\<close> of \<^verbatim>\<open>selectGeoEndpoints\<close>.
\<close>

record SteeringConfig =
  defaultEndpoints :: "Endpoint list option"

record LoadBalancerOptions =
  endpoints :: "Endpoint list option"
  geoEndpoints :: "GeoEndpoint list option"
  steering :: "SteeringConfig option"

definition getEndpointsToTry :: "LoadBalancerOptions \<Rightarrow> CfProperties option \<Rightarrow> Endpoint list" where
  "getEndpointsToTry options cf =
     (case (steering options, geoEndpoints options) of
        (Some st, Some ges) \<Rightarrow>
          selectGeoEndpoints ges cf (case defaultEndpoints st of None \<Rightarrow> [] | Some ds \<Rightarrow> ds)
      | _ \<Rightarrow> (case endpoints options of None \<Rightarrow> [] | Some es \<Rightarrow> es))"

text \<open>
  The selector as the specification words it, for comparison with the code: origins in the
  order matched, fallback, all geo origins, keeping of each URL only the first origin.
\<close>

fun keepUnseen :: "string set \<Rightarrow> Endpoint list \<Rightarrow> Endpoint list" where
  "keepUnseen seen [] = []"
| "keepUnseen seen (e # es) =
     (if url e \<in> seen then keepUnseen seen es else e # keepUnseen (insert (url e) seen) es)"

definition selectGeoEndpoints_spec ::
  "GeoEndpoint list \<Rightarrow> CfProperties option \<Rightarrow> Endpoint list \<Rightarrow> Endpoint list" where
  "selectGeoEndpoints_spec ges cf fallback =
     (let matched = (case cf of None \<Rightarrow> []
                     | Some c \<Rightarrow> filter (\<lambda>ge. matchesCfProperties ge c) ges) in
      if matched = [] then (if fallback \<noteq> [] then fallback else map toEndpoint ges)
      else keepUnseen {} (map toEndpoint matched @ fallback @ map toEndpoint ges))"

text \<open>Configurations used as concrete inputs below.\<close>

definition cfEU :: CfProperties where
  "cfEU = \<lparr>continent = Some ''EU'', country = Some ''DE'', regionCode = None, colo = None\<rparr>"

definition geoDup :: "GeoEndpoint list" where
  "geoDup = [geoEndpoint ''https://eu.api.example.com'' (Continent [''EU'']),
             geoEndpoint ''https://eu.api.example.com'' (Country [''DE'', ''FR'']),
             geoEndpoint ''https://us.api.example.com'' (Continent [''NA''])]"

definition geoThree :: "GeoEndpoint list" where
  "geoThree = [geoEndpoint ''https://us.api.example.com'' (Continent [''NA'']),
               geoEndpoint ''https://eu.api.example.com'' (Continent [''EU'']),
               geoEndpoint ''https://asia.api.example.com'' (Continent [''AS''])]"

definition flatDupOptions :: LoadBalancerOptions where
  "flatDupOptions =
     \<lparr>endpoints = Some [endpoint ''https://api.example.com'', endpoint ''https://api.example.com''],
      geoEndpoints = None, steering = None\<rparr>"

definition geoSlashOptions :: LoadBalancerOptions where
  "geoSlashOptions =
     \<lparr>endpoints = None, geoEndpoints = Some geoThree,
      steering = Some \<lparr>defaultEndpoints = Some [endpoint ''https://eu.api.example.com/'']\<rparr>\<rparr>"

definition geoOptions :: LoadBalancerOptions where
  "geoOptions =
     \<lparr>endpoints = None, geoEndpoints = Some geoThree,
      steering = Some \<lparr>defaultEndpoints =
        Some [endpoint ''https://us.api.example.com'', endpoint ''https://default.api.example.com'']\<rparr>\<rparr>"

section \<open>Requests, responses and failures\<close>

text \<open>
  The inbound \<^verbatim>\<open>Request\<close>. \<open>request_method\<close> is its \<^verbatim>\<open>method\<close>, \<open>request_url\<close> its
  \<^verbatim>\<open>url\<close>, and \<^verbatim>\<open>pathname\<close> and \<^verbatim>\<open>search\<close> are the parts that
  \<^verbatim>\<open>new URL(request.url)\<close> yields. The body is \<^verbatim>\<open>null\<close> or a stream, and reading the stream
  with \<^verbatim>\<open>arrayBuffer()\<close> either rejects with a cause (\<open>Inl\<close>) or yields the bytes (\<open>Inr\<close>).
\<close>

datatype RequestBody = NoBody | BodyStream "string + string"

record Request =
  request_method :: string
  request_url :: string
  pathname :: string
  search :: string
  request_headers :: "(string \<times> string) list"
  request_body :: RequestBody

record Response =
  status :: int
  statusText :: string
  headers :: "(string \<times> string) list"
  body :: "string option"

type_synonym BufferedBody = "string option"

text \<open>
  \<^verbatim>\<open>RequestForwardError\<close> carries an endpoint and a cause. \<^verbatim>\<open>bufferRequestBody\<close> builds it
  from \<^verbatim>\<open>{ url: request.url } as Endpoint\<close>, an object with the URL only.
\<close>

datatype ErrorEndpoint = OfEndpoint Endpoint | UrlOnly string

datatype RequestForwardError = RequestForwardError ErrorEndpoint string

datatype Reason = Timeout | Status | Network

datatype EndpointUnhealthyError = EndpointUnhealthyError Endpoint Reason "int option"

text \<open>
  The values the strategies assign to \<^verbatim>\<open>lastError\<close>: a forward or buffering error, the
  synthetic \<^verbatim>\<open>new Error(`Endpoint returned status ${response.status}`)\<close>, or a health error.
  An unassigned \<^verbatim>\<open>lastError\<close> is \<open>None\<close>.
\<close>

datatype Failure =
    ForwardFailure RequestForwardError
  | StatusFailure int
  | HealthFailure EndpointUnhealthyError

record NoHealthyEndpointsError =
  triedEndpoints :: "Endpoint list"
  lastError :: "Failure option"

text \<open>
  An exception thrown by synchronous code inside \<^verbatim>\<open>Effect.gen\<close> is a defect: the effect dies
  with it, outside the typed error channel. The exceptions the annotation of a response can
  throw are \<^verbatim>\<open>TypeError\<close> and \<^verbatim>\<open>RangeError\<close>. A strategy ends in one of three ways.
\<close>

datatype Defect = TypeError | RangeError

datatype Exit =
    Die Defect
  | Fail NoHealthyEndpointsError
  | Succeed Response

section \<open>Effects\<close>

text \<open>
  Every effect of a dispatch is an event, and the history of a run is the list of its events,
  most recent first. What the outside world answers (the clock, \<^verbatim>\<open>fetch\<close>, the injected
  \<^verbatim>\<open>HealthChecker\<close>, and the outcome of the timed race of health checks) is a function of the
  history so far and of the call, so that the same origin may answer differently on a later
  attempt. \<open>race\<close> stands for
  \<^verbatim>\<open>Effect.raceAll(...).pipe(Effect.timeout("10 seconds"), Effect.option)\<close>: \<open>None\<close> when no
  probe reported healthy before the ceiling, else the origin whose probe won.
\<close>

record FetchCall =
  target :: string
  fetch_method :: string
  fetch_headers :: "(string \<times> string) list"
  fetch_body :: BufferedBody
  fetch_timeout :: real

datatype Event =
    Now
  | ReadBody
  | Fetch FetchCall
  | HealthCheck Endpoint
  | HealthRace "Endpoint list"

record World =
  clock :: "Event list \<Rightarrow> int"
  fetch :: "Event list \<Rightarrow> FetchCall \<Rightarrow> string + Response"
  check :: "Event list \<Rightarrow> Endpoint \<Rightarrow> EndpointUnhealthyError + bool"
  race :: "Event list \<Rightarrow> Endpoint list \<Rightarrow> Endpoint option"

definition dateNow :: "World \<Rightarrow> Event list \<Rightarrow> int \<times> Event list" where
  "dateNow w h = (clock w h, Now # h)"

definition healthCheck ::
  "World \<Rightarrow> Endpoint \<Rightarrow> Event list \<Rightarrow> (EndpointUnhealthyError + bool) \<times> Event list" where
  "healthCheck w e h = (check w h e, HealthCheck e # h)"

definition raceHealthChecks ::
  "World \<Rightarrow> Endpoint list \<Rightarrow> Event list \<Rightarrow> Endpoint option \<times> Event list" where
  "raceHealthChecks w es h = (race w h es, HealthRace es # h)"

section \<open>Body buffer and forwarder\<close>

text \<open>
  \<^verbatim>\<open>method.toUpperCase()\<close> on the ASCII letters; a request method is an HTTP token.
\<close>

definition toUpperCase :: "string \<Rightarrow> string" where
  "toUpperCase s =
     map (\<lambda>c. if 97 \<le> (of_char c :: nat) \<and> (of_char c :: nat) \<le> 122
               then char_of (of_char c - (32 :: nat)) else c) s"

definition BODYLESS_METHODS :: "string list" where
  "BODYLESS_METHODS = [''GET'', ''HEAD'', ''OPTIONS'']"

definition methodSupportsBody :: "string \<Rightarrow> bool" where
  "methodSupportsBody m = (toUpperCase m \<notin> set BODYLESS_METHODS)"

definition bufferRequestBody ::
  "Request \<Rightarrow> Event list \<Rightarrow> (RequestForwardError + BufferedBody) \<times> Event list" where
  "bufferRequestBody request h =
     (if \<not> methodSupportsBody (request_method request) then (Inr None, h)
      else case request_body request of
             NoBody \<Rightarrow> (Inr None, h)
           | BodyStream (Inl cause) \<Rightarrow>
               (Inl (RequestForwardError (UrlOnly (request_url request)) cause), ReadBody # h)
           | BodyStream (Inr bytes) \<Rightarrow> (Inr (Some bytes), ReadBody # h))"

definition forwardRequest ::
  "World \<Rightarrow> Endpoint \<Rightarrow> Request \<Rightarrow> BufferedBody \<Rightarrow> Event list
     \<Rightarrow> (RequestForwardError + Response) \<times> Event list" where
  "forwardRequest w ep request bufferedBody h =
     (let targetUrl = buildTargetUrl ep (pathname request) (search request);
          body = (if methodSupportsBody (request_method request) then bufferedBody else None);
          call = \<lparr>target = targetUrl, fetch_method = request_method request,
                  fetch_headers = request_headers request, fetch_body = body,
                  fetch_timeout = timeoutMs ep\<rparr>
      in (case fetch w h call of
            Inl cause \<Rightarrow> Inl (RequestForwardError (OfEndpoint ep) cause)
          | Inr response \<Rightarrow> Inr response,
          Fetch call # h))"

section \<open>Response annotation\<close>

text \<open>
  \<^verbatim>\<open>Headers\<close> of the Fetch standard as a list of name and value. Names are compared without
  regard to ASCII case; \<^verbatim>\<open>set\<close> overwrites the first header of that name and removes the
  others, or appends.
\<close>

definition lowerName :: "string \<Rightarrow> string" where
  "lowerName s =
     map (\<lambda>c. if 65 \<le> (of_char c :: nat) \<and> (of_char c :: nat) \<le> 90
               then char_of (of_char c + (32 :: nat)) else c) s"

definition headers_has :: "string \<Rightarrow> (string \<times> string) list \<Rightarrow> bool" where
  "headers_has name hs = (lowerName name \<in> set (map (\<lambda>kv. lowerName (fst kv)) hs))"

fun headers_set :: "string \<Rightarrow> string \<Rightarrow> (string \<times> string) list \<Rightarrow> (string \<times> string) list" where
  "headers_set name v [] = [(name, v)]"
| "headers_set name v (kv # hs) =
     (if lowerName (fst kv) = lowerName name
      then (fst kv, v) # filter (\<lambda>kv'. lowerName (fst kv') \<noteq> lowerName name) hs
      else kv # headers_set name v hs)"

definition HEADERS_ENDPOINT :: string where
  "HEADERS_ENDPOINT = ''X-Load-Balancer-Endpoint''"

definition HEADERS_LATENCY :: string where
  "HEADERS_LATENCY = ''X-Load-Balancer-Latency''"

definition HEADERS_GATHER_LATENCY :: string where
  "HEADERS_GATHER_LATENCY = ''X-Load-Balancer-Endpoint-Gather-Latency''"

definition HEADERS_TRIED_COUNT :: string where
  "HEADERS_TRIED_COUNT = ''X-Load-Balancer-Tried-Count''"

definition HEADERS_TRIED_ENDPOINTS :: string where
  "HEADERS_TRIED_ENDPOINTS = ''X-Load-Balancer-Tried-Endpoints''"

text \<open>\<^verbatim>\<open>String(n)\<close> for an integer \<open>n\<close>: its decimal digits, with a sign when negative.\<close>

function decimal :: "nat \<Rightarrow> string" where
  "decimal n = (if n < 10 then [char_of (48 + n)] else decimal (n div 10) @ [char_of (48 + n mod 10)])"
  by pat_completeness auto
termination
  by (relation "measure id") auto

declare decimal.simps [simp del]

definition String :: "int \<Rightarrow> string" where
  "String i = (if i < 0 then CHR ''-'' # decimal (nat (- i)) else decimal (nat i))"

fun join :: "string \<Rightarrow> string list \<Rightarrow> string" where
  "join sep [] = []"
| "join sep [x] = x"
| "join sep (x # y # ys) = x @ sep @ join sep (y # ys)"

text \<open>
  \<^verbatim>\<open>Headers.set(name, value)\<close> first removes leading and trailing HTTP whitespace (tab, line
  feed, carriage return, space) from the value, and throws a \<^verbatim>\<open>TypeError\<close> when the result
  contains a NUL, a line feed or a carriage return. The header names used here are legal.
  Strings are byte strings, the values a header can hold.
\<close>

definition isHttpWhitespace :: "char \<Rightarrow> bool" where
  "isHttpWhitespace c = (c \<in> set [CHR 0x09, CHR 0x0A, CHR 0x0D, CHR 0x20])"

definition normalizeHeaderValue :: "string \<Rightarrow> string" where
  "normalizeHeaderValue v =
     rev (dropWhile isHttpWhitespace (rev (dropWhile isHttpWhitespace v)))"

definition legalHeaderValue :: "string \<Rightarrow> bool" where
  "legalHeaderValue v =
     list_all (\<lambda>c. c \<notin> set [CHR 0x00, CHR 0x0A, CHR 0x0D]) (normalizeHeaderValue v)"

definition Headers_set ::
  "string \<Rightarrow> string \<Rightarrow> (string \<times> string) list \<Rightarrow> Defect + (string \<times> string) list" where
  "Headers_set name v hs =
     (if legalHeaderValue v then Inr (headers_set name (normalizeHeaderValue v) hs)
      else Inl TypeError)"

text \<open>
  \<^verbatim>\<open>new Response(body, { status, statusText, headers })\<close> throws a \<^verbatim>\<open>RangeError\<close> when the
  status is outside 200 to 599, a \<^verbatim>\<open>TypeError\<close> when the status text is not a reason phrase
  (tab, space, visible ASCII and bytes from 0x80), and a \<^verbatim>\<open>TypeError\<close> when there is a body
  and the status is a null body status.
\<close>

definition legalReasonPhrase :: "string \<Rightarrow> bool" where
  "legalReasonPhrase t =
     list_all (\<lambda>c. of_char c = (9 :: nat) \<or> (32 \<le> (of_char c :: nat) \<and> of_char c \<noteq> (127 :: nat))) t"

definition nullBodyStatus :: "int \<Rightarrow> bool" where
  "nullBodyStatus s = (s \<in> set [101, 103, 204, 205, 304])"

definition newResponse ::
  "string option \<Rightarrow> int \<Rightarrow> string \<Rightarrow> (string \<times> string) list \<Rightarrow> Defect + Response" where
  "newResponse b st stText hs =
     (if st < 200 \<or> 599 < st then Inl RangeError
      else if \<not> legalReasonPhrase stText then Inl TypeError
      else if b \<noteq> None \<and> nullBodyStatus st then Inl TypeError
      else Inr \<lparr>status = st, statusText = stText, headers = hs, body = b\<rparr>)"

text \<open>Sequencing of steps that may throw: the first exception ends the computation.\<close>

fun andThen :: "Defect + 'a \<Rightarrow> ('a \<Rightarrow> Defect + 'b) \<Rightarrow> Defect + 'b" where
  "andThen (Inl d) f = Inl d"
| "andThen (Inr x) f = f x"

text \<open>
  \<^verbatim>\<open>addLoadBalancerHeaders\<close> (dist/Headers.js). It reads the clock once, copies the response's
  headers, sets three headers, sets the two trace headers only when more than one origin was
  tried, and builds a response with the same body, status and status text. Each \<^verbatim>\<open>set\<close> and
  the constructor may throw; nothing catches the exception.
\<close>

definition addLoadBalancerHeaders ::
  "World \<Rightarrow> Response \<Rightarrow> Endpoint \<Rightarrow> Endpoint list \<Rightarrow> int \<Rightarrow> int \<Rightarrow> Event list
     \<Rightarrow> (Defect + Response) \<times> Event list" where
  "addLoadBalancerHeaders w response ep tried startTime gatherTime h =
     (let (endTime, h1) = dateNow w h;
          hs0 = headers response
      in (andThen (Headers_set HEADERS_ENDPOINT (url ep) hs0) (\<lambda>hs1.
          andThen (Headers_set HEADERS_LATENCY (String (endTime - startTime)) hs1) (\<lambda>hs2.
          andThen (Headers_set HEADERS_GATHER_LATENCY (String (gatherTime - startTime)) hs2)
            (\<lambda>hs3.
          andThen
            (if length tried > 1
             then andThen (Headers_set HEADERS_TRIED_COUNT (String (int (length tried))) hs3)
                    (\<lambda>hs. Headers_set HEADERS_TRIED_ENDPOINTS (join '', '' (map url tried)) hs)
             else Inr hs3) (\<lambda>hs4.
          newResponse (body response) (status response) (statusText response) hs4)))),
          h1))"

text \<open>
  \<^verbatim>\<open>return addLoadBalancerHeaders(...)\<close> inside \<^verbatim>\<open>Effect.gen\<close>: the strategy succeeds with the
  annotated response, or dies with the exception.
\<close>

fun returnAnnotated :: "(Defect + Response) \<times> Event list \<Rightarrow> Exit \<times> Event list" where
  "returnAnnotated (Inl d, h) = (Die d, h)"
| "returnAnnotated (Inr annotated, h) = (Succeed annotated, h)"

section \<open>Dispatch strategies\<close>

definition DEFAULT_FAILOVER_STATUSES :: "int list" where
  "DEFAULT_FAILOVER_STATUSES = [502, 503, 504]"

text \<open>
  The \<^verbatim>\<open>for\<close> loop of \<^verbatim>\<open>failForward\<close> over the candidates still to be tried, with the
  variables \<^verbatim>\<open>tried\<close> and \<^verbatim>\<open>lastError\<close> it updates. The third parameter of
  \<^verbatim>\<open>failForward\<close> is optional: left out (\<open>None\<close>), it is the default list.
\<close>

fun failForward_loop ::
  "World \<Rightarrow> Request \<Rightarrow> BufferedBody \<Rightarrow> int list \<Rightarrow> int \<Rightarrow> Endpoint list \<Rightarrow> Endpoint list
     \<Rightarrow> Failure option \<Rightarrow> Event list \<Rightarrow> Exit \<times> Event list" where
  "failForward_loop w request bufferedBody failoverStatuses startTime [] tried lastErr h =
     (Fail \<lparr>triedEndpoints = tried, lastError = lastErr\<rparr>, h)"
| "failForward_loop w request bufferedBody failoverStatuses startTime (ep # rest) tried
     lastErr h =
     (let tried' = tried @ [ep];
          (gatherTime, h1) = dateNow w h;
          (result, h2) = forwardRequest w ep request bufferedBody h1
      in case result of
           Inr response \<Rightarrow>
             if status response \<notin> set failoverStatuses
             then returnAnnotated
                    (addLoadBalancerHeaders w response ep tried' startTime gatherTime h2)
             else failForward_loop w request bufferedBody failoverStatuses startTime rest tried'
                    (Some (StatusFailure (status response))) h2
         | Inl error \<Rightarrow>
             failForward_loop w request bufferedBody failoverStatuses startTime rest tried'
               (Some (ForwardFailure error)) h2)"

definition failForward ::
  "World \<Rightarrow> Endpoint list \<Rightarrow> Request \<Rightarrow> int list option \<Rightarrow> Event list
     \<Rightarrow> Exit \<times> Event list" where
  "failForward w eps request failoverStatusesArg h =
     (let failoverStatuses =
            (case failoverStatusesArg of
               None \<Rightarrow> DEFAULT_FAILOVER_STATUSES
             | Some statuses \<Rightarrow> statuses);
          (startTime, h0) = dateNow w h;
          (buffered, h1) = bufferRequestBody request h0;
          (bufferedBody, lastErr) =
             (case buffered of
                Inl error \<Rightarrow> (None, Some (ForwardFailure error))
              | Inr b \<Rightarrow> (b, None))
      in failForward_loop w request bufferedBody failoverStatuses startTime eps []
           lastErr h1)"

text \<open>The loop of \<^verbatim>\<open>asyncBlock\<close>.\<close>

fun asyncBlock_loop ::
  "World \<Rightarrow> Request \<Rightarrow> BufferedBody \<Rightarrow> int \<Rightarrow> Endpoint list \<Rightarrow> Endpoint list
     \<Rightarrow> Failure option \<Rightarrow> Event list \<Rightarrow> Exit \<times> Event list" where
  "asyncBlock_loop w request bufferedBody startTime [] tried lastErr h =
     (Fail \<lparr>triedEndpoints = tried, lastError = lastErr\<rparr>, h)"
| "asyncBlock_loop w request bufferedBody startTime (ep # rest) tried lastErr h =
     (let tried' = tried @ [ep];
          (gatherTime, h1) = dateNow w h;
          (healthResult, h2) = healthCheck w ep h1
      in case healthResult of
           Inr healthy \<Rightarrow>
             (let (forwardResult, h3) = forwardRequest w ep request bufferedBody h2
              in case forwardResult of
                   Inr response \<Rightarrow>
                     returnAnnotated
                       (addLoadBalancerHeaders w response ep tried' startTime gatherTime h3)
                 | Inl error \<Rightarrow>
                     asyncBlock_loop w request bufferedBody startTime rest tried'
                       (Some (ForwardFailure error)) h3)
         | Inl unhealthy \<Rightarrow>
             asyncBlock_loop w request bufferedBody startTime rest tried'
               (Some (HealthFailure unhealthy)) h2)"

definition asyncBlock ::
  "World \<Rightarrow> Endpoint list \<Rightarrow> Request \<Rightarrow> Event list
     \<Rightarrow> Exit \<times> Event list" where
  "asyncBlock w eps request h =
     (let (startTime, h0) = dateNow w h;
          (buffered, h1) = bufferRequestBody request h0;
          (bufferedBody, lastErr) =
             (case buffered of
                Inl error \<Rightarrow> (None, Some (ForwardFailure error))
              | Inr b \<Rightarrow> (b, None))
      in asyncBlock_loop w request bufferedBody startTime eps [] lastErr h1)"

text \<open>
  \<^verbatim>\<open>promiseAny\<close>. The part after the buffering step is a function of its own; it has no
  \<^verbatim>\<open>lastError\<close> variable, and the buffering step's \<^verbatim>\<open>catchAll\<close> drops the error.
\<close>

definition promiseAny_race ::
  "World \<Rightarrow> Endpoint list \<Rightarrow> Request \<Rightarrow> BufferedBody \<Rightarrow> int \<Rightarrow> Event list
     \<Rightarrow> Exit \<times> Event list" where
  "promiseAny_race w eps request bufferedBody startTime h =
     (let (healthyEndpointResult, h1) = raceHealthChecks w eps h
      in case healthyEndpointResult of
           None \<Rightarrow> (Fail \<lparr>triedEndpoints = eps, lastError = None\<rparr>, h1)
         | Some ep \<Rightarrow>
             (let (gatherTime, h2) = dateNow w h1;
                  (result, h3) = forwardRequest w ep request bufferedBody h2
              in case result of
                   Inl error \<Rightarrow>
                     (Fail \<lparr>triedEndpoints = eps,
                           lastError = Some (ForwardFailure error)\<rparr>, h3)
                 | Inr response \<Rightarrow>
                     returnAnnotated
                       (addLoadBalancerHeaders w response ep [ep] startTime gatherTime h3)))"

definition promiseAny ::
  "World \<Rightarrow> Endpoint list \<Rightarrow> Request \<Rightarrow> Event list
     \<Rightarrow> Exit \<times> Event list" where
  "promiseAny w eps request h =
     (let (startTime, h0) = dateNow w h in
      if length eps = 0 then (Fail \<lparr>triedEndpoints = [], lastError = None\<rparr>, h0)
      else (let (buffered, h1) = bufferRequestBody request h0;
                bufferedBody = (case buffered of Inl error \<Rightarrow> None | Inr b \<Rightarrow> b)
            in promiseAny_race w eps request bufferedBody startTime h1))"

section \<open>A concrete world\<close>

text \<open>
  Three origins for concrete runs: \<^verbatim>\<open>a\<close> refuses connections and fails its health check,
  \<^verbatim>\<open>b\<close> answers 503, and every other origin answers 200. \<open>demoWorld r\<close> lets the health race
  end with \<open>r\<close>.
\<close>

definition epA :: Endpoint where
  "epA = endpoint ''https://a.example.com''"

definition epB :: Endpoint where
  "epB = endpoint ''https://b.example.com/''"

definition epC :: Endpoint where
  "epC = endpoint ''https://c.example.com''"

definition resp503 :: Response where
  "resp503 = \<lparr>status = 503, statusText = ''Service Unavailable'', headers = [], body = None\<rparr>"

definition resp200 :: Response where
  "resp200 = \<lparr>status = 200, statusText = ''OK'',
               headers = [(''content-type'', ''text/plain'')], body = Some ''hello''\<rparr>"

definition demoFetch :: "Event list \<Rightarrow> FetchCall \<Rightarrow> string + Response" where
  "demoFetch h c =
     (if target c = ''https://a.example.com/api'' then Inl ''connection refused''
      else if target c = ''https://b.example.com/api'' then Inr resp503
      else Inr resp200)"

definition demoCheck :: "Event list \<Rightarrow> Endpoint \<Rightarrow> EndpointUnhealthyError + bool" where
  "demoCheck h e =
     (if url e = ''https://a.example.com'' then Inl (EndpointUnhealthyError e Network None)
      else Inr True)"

definition demoWorld :: "Endpoint option \<Rightarrow> World" where
  "demoWorld r =
     \<lparr>clock = (\<lambda>h. 1000 + 7 * int (length h)), fetch = demoFetch, check = demoCheck,
      race = (\<lambda>h es. r)\<rparr>"

definition getRequest :: Request where
  "getRequest =
     \<lparr>request_method = ''GET'', request_url = ''https://lb.example.com/api'', pathname = ''/api'',
      search = [], request_headers = [], request_body = NoBody\<rparr>"

definition brokenPost :: Request where
  "brokenPost =
     \<lparr>request_method = ''post'', request_url = ''https://lb.example.com/api'', pathname = ''/api'',
      search = [], request_headers = [], request_body = BodyStream (Inl ''stream errored'')\<rparr>"

text \<open>
  A world whose origins are themselves load balancers of this kind: every response arrives
  with trace headers of its own.
\<close>

definition respChained :: Response where
  "respChained =
     \<lparr>status = 200, statusText = ''OK'',
      headers = [(''x-load-balancer-tried-count'', ''2''),
                 (''x-load-balancer-tried-endpoints'', ''https://x.internal, https://y.internal'')],
      body = Some ''hello''\<rparr>"

definition chainedWorld :: World where
  "chainedWorld =
     \<lparr>clock = (\<lambda>h. 1000 + 7 * int (length h)), fetch = (\<lambda>h c. Inr respChained),
      check = (\<lambda>h e. Inr True), race = (\<lambda>h es. Some epC)\<rparr>"



section \<open>Vocabulary for the statements about the strategies\<close>






text \<open>
  The state of \<^verbatim>\<open>promiseAny\<close> on a non-empty candidate list when the health race has ended:
  the start time, the buffered body, the outcome of the race and the history.
\<close>

definition startRace ::
  "World \<Rightarrow> Endpoint list \<Rightarrow> Request \<Rightarrow> Event list
     \<Rightarrow> int \<times> BufferedBody \<times> Endpoint option \<times> Event list" where
  "startRace w eps request h =
     (let (startTime, h0) = dateNow w h;
          (buffered, h1) = bufferRequestBody request h0;
          (winner, h2) = raceHealthChecks w eps h1
      in (startTime, case buffered of Inl error \<Rightarrow> None | Inr b \<Rightarrow> b, winner, h2))"

text \<open>The events that contact an origin.\<close>

fun isAttempt :: "Event \<Rightarrow> bool" where
  "isAttempt (Fetch c) = True"
| "isAttempt (HealthCheck e) = True"
| "isAttempt (HealthRace es) = True"
| "isAttempt Now = False"
| "isAttempt ReadBody = False"



text \<open>An event that sends no request body to an origin.\<close>

fun sendsNoBody :: "Event \<Rightarrow> bool" where
  "sendsNoBody (Fetch c) = (fetch_body c = None)"
| "sendsNoBody (HealthCheck e) = True"
| "sendsNoBody (HealthRace es) = True"
| "sendsNoBody Now = True"
| "sendsNoBody ReadBody = True"

text \<open>
  A run from history \<open>h\<close> to history \<open>h'\<close> goes on to the candidates with a null body: \<open>h'\<close>
  extends \<open>h\<close>, no new event sends a body, and unless there is no candidate some new event
  contacts an origin.
\<close>

definition newEvents :: "Event list \<Rightarrow> Event list \<Rightarrow> Event list" where
  "newEvents h h' = take (length h' - length h) h'"

definition proceedsWithNullBody :: "Endpoint list \<Rightarrow> Event list \<Rightarrow> Event list \<Rightarrow> bool" where
  "proceedsWithNullBody eps h h' =
     (drop (length h' - length h) h' = h
      \<and> list_all sendsNoBody (newEvents h h')
      \<and> (eps = [] \<or> list_ex isAttempt (newEvents h h')))"

section \<open>Properties of normalization\<close>

lemma normalizeUrl_snoc_slash: "normalizeUrl (v @ ''/'') = v"
  by (simp add: normalizeUrl_def)

lemma normalizeUrl_no_slash:
  "u = [] \<or> last u \<noteq> CHR ''/'' \<Longrightarrow> normalizeUrl u = u"
  by (auto simp: normalizeUrl_def)

lemma normalizeUrl_fixed_iff:
  "(normalizeUrl u = u) = (u = [] \<or> last u \<noteq> CHR ''/'')"
proof (cases "u = [] \<or> last u \<noteq> CHR ''/''")
  case True
  then show ?thesis by (simp add: normalizeUrl_no_slash)
next
  case False
  then have "length (normalizeUrl u) < length u"
    by (simp add: normalizeUrl_def)
  with False show ?thesis by auto
qed

lemma ends_double_slash_iff:
  "(\<exists>v. u = v @ ''//'') = (normalizeUrl u \<noteq> [] \<and> last (normalizeUrl u) = CHR ''/'' \<and> normalizeUrl u \<noteq> u)"
proof
  assume "\<exists>v. u = v @ ''//''"
  then obtain v where u: "u = v @ ''//''" by blast
  have "u = (v @ ''/'') @ ''/''" by (simp add: u)
  then have "normalizeUrl u = v @ ''/''"
    using normalizeUrl_snoc_slash by metis
  then show "normalizeUrl u \<noteq> [] \<and> last (normalizeUrl u) = CHR ''/'' \<and> normalizeUrl u \<noteq> u"
    by (simp add: u)
next
  assume a: "normalizeUrl u \<noteq> [] \<and> last (normalizeUrl u) = CHR ''/'' \<and> normalizeUrl u \<noteq> u"
  then have ne: "u \<noteq> []" and sl: "last u = CHR ''/''"
    using normalizeUrl_fixed_iff [of u] by auto
  then have n: "normalizeUrl u = butlast u" by (simp add: normalizeUrl_def)
  from a n have "butlast u \<noteq> []" and "last (butlast u) = CHR ''/''" by auto
  then have "butlast u = butlast (butlast u) @ ''/''"
    by (metis append_butlast_last_id)
  moreover from ne sl have "u = butlast u @ ''/''"
    by (metis append_butlast_last_id)
  ultimately have "u = butlast (butlast u) @ ''//''"
    by (metis append_Cons append_Nil append_assoc)
  then show "\<exists>v. u = v @ ''//''" by blast
qed

text \<open>
  Claim C4 (as amended). Normalization removes exactly one trailing slash when the URL ends
  in one and leaves every other URL unchanged, so a URL ending in \<^verbatim>\<open>//\<close> keeps one slash and
  at most one character is removed; it is idempotent on exactly the URLs that do not end in
  \<^verbatim>\<open>//\<close>. Both getters are this function of the \<^verbatim>\<open>url\<close> field.
\<close>

theorem normalizeUrl_single_slash:
  "normalizeUrl (v @ ''/'') = v
   \<and> (normalizeUrl u = u) = (\<not> (\<exists>v. u = v @ ''/''))
   \<and> normalizeUrl (v @ ''//'') = v @ ''/''
   \<and> length u \<le> length (normalizeUrl u) + 1
   \<and> (normalizeUrl (normalizeUrl u) = normalizeUrl u) = (\<not> (\<exists>v. u = v @ ''//''))
   \<and> normalizedUrl e = normalizeUrl (url e)
   \<and> geoNormalizedUrl ge = normalizeUrl (url ge)"
proof -
  have c0: "normalizeUrl (v @ ''/'') = v" by (rule normalizeUrl_snoc_slash)
  have "(\<exists>v. u = v @ ''/'') = (u \<noteq> [] \<and> last u = CHR ''/'')"
    by (metis append_butlast_last_id last_snoc snoc_eq_iff_butlast)
  then have c0': "(normalizeUrl u = u) = (\<not> (\<exists>v. u = v @ ''/''))"
    using normalizeUrl_fixed_iff [of u] by auto
  have "v @ ''//'' = (v @ ''/'') @ ''/''" by simp
  then have c1: "normalizeUrl (v @ ''//'') = v @ ''/''"
    using normalizeUrl_snoc_slash by metis
  have c2: "length u \<le> length (normalizeUrl u) + 1"
    by (simp add: normalizeUrl_def)
  have c3: "(normalizeUrl (normalizeUrl u) = normalizeUrl u) = (\<not> (\<exists>v. u = v @ ''//''))"
    unfolding ends_double_slash_iff normalizeUrl_fixed_iff [of "normalizeUrl u"]
    using normalizeUrl_fixed_iff [of u] by auto
  have c4: "normalizedUrl e = normalizeUrl (url e)" "geoNormalizedUrl ge = normalizeUrl (url ge)"
    by (simp_all add: normalizedUrl_def geoNormalizedUrl_def)
  from c0 c0' c1 c2 c3 c4 show ?thesis by simp
qed

text \<open>
  Claim C4 as stated fails: the origin URL \<^verbatim>\<open>https://api.example.com//\<close> normalizes to
  \<^verbatim>\<open>https://api.example.com/\<close>, and normalizing that again removes the remaining slash.
\<close>

theorem normalizedUrl_not_idempotent:
  "normalizedUrl (endpoint ''https://api.example.com//'') = ''https://api.example.com/''
   \<and> normalizedUrl (endpoint (normalizedUrl (endpoint ''https://api.example.com//'')))
       = ''https://api.example.com''
   \<and> normalizedUrl (endpoint (normalizedUrl (endpoint ''https://api.example.com//'')))
       \<noteq> normalizedUrl (endpoint ''https://api.example.com//'')"
  by (simp add: normalizedUrl_def normalizeUrl_def endpoint_def)

section \<open>Properties of the health-probe timeout\<close>

text \<open>
  Claim C8. The health-probe timeout of an origin is half its request timeout rounded down,
  clamped to at least 1000 ms and at most 10000 ms, that is
  \<open>max(1000, min(floor(timeoutMs / 2), 10000))\<close>.
\<close>

theorem getHealthCheckTimeout_clamped:
  "getHealthCheckTimeout e = clamped 1000 10000 \<lfloor>timeoutMs e / 2\<rfloor>
   \<and> getHealthCheckTimeout e = max 1000 (min \<lfloor>timeoutMs e / 2\<rfloor> 10000)
   \<and> 1000 \<le> getHealthCheckTimeout e \<and> getHealthCheckTimeout e \<le> 10000"
  by (simp add: getHealthCheckTimeout_def clamped_def Let_def max_def min_def)

section \<open>Properties of the geo selector\<close>

lemma url_toEndpoint [simp]: "url (toEndpoint ge) = url ge"
  by (simp add: toEndpoint_def)

lemma foldl_pushMatched:
  "foldl pushMatched (os, s) ms = (os @ map toEndpoint ms, s \<union> url ` set ms)"
  by (induction ms arbitrary: os s) (simp_all add: pushMatched_def)

lemma keepUnseen_urls: "url ` set (keepUnseen s xs) = url ` set xs - s"
  by (induction xs arbitrary: s) auto

lemma foldl_pushDefault:
  "foldl pushDefault (os, s) ds = (os @ keepUnseen s ds, s \<union> url ` set ds)"
  by (induction ds arbitrary: os s) (auto simp: pushDefault_def)

lemma foldl_pushRemaining:
  "foldl pushRemaining (os, s) gs =
     (os @ keepUnseen s (map toEndpoint gs), s \<union> url ` set gs)"
  by (induction gs arbitrary: os s) (auto simp: pushRemaining_def)

lemma keepUnseen_append:
  "keepUnseen s (xs @ ys) = keepUnseen s xs @ keepUnseen (s \<union> url ` set xs) ys"
  by (induction xs arbitrary: s) (auto simp: insert_absorb)

lemma keepUnseen_distinct: "distinct (map url (keepUnseen s xs))"
proof (induction xs arbitrary: s)
  case Nil
  then show ?case by simp
next
  case (Cons e es)
  have "url e \<notin> url ` set (keepUnseen (insert (url e) s) es)"
    by (simp add: keepUnseen_urls)
  with Cons show ?case by simp
qed

lemma keepUnseen_fresh: "url ` set (keepUnseen s xs) \<inter> s = {}"
  by (auto simp: keepUnseen_urls)

lemma keepUnseen_id:
  "distinct (map url xs) \<Longrightarrow> url ` set xs \<inter> s = {} \<Longrightarrow> keepUnseen s xs = xs"
  by (induction xs arbitrary: s) auto

text \<open>
  What the code returns when at least one rule matches: every matched origin, then the
  fallback and geo origins whose raw URL has not occurred before.
\<close>

lemma selectGeoEndpoints_matched:
  assumes "filter (\<lambda>ge. matchesCfProperties ge c) ges \<noteq> []"
  shows "selectGeoEndpoints ges (Some c) ds =
           map toEndpoint (filter (\<lambda>ge. matchesCfProperties ge c) ges)
           @ keepUnseen (url ` set (filter (\<lambda>ge. matchesCfProperties ge c) ges))
               (ds @ map toEndpoint ges)"
  using assms
  by (simp add: selectGeoEndpoints_def Let_def foldl_pushMatched foldl_pushDefault
      foldl_pushRemaining keepUnseen_append del: set_filter)

lemma selectGeoEndpoints_unmatched:
  "cf = None \<or> (\<exists>c. cf = Some c \<and> filter (\<lambda>ge. matchesCfProperties ge c) ges = [])
   \<Longrightarrow> selectGeoEndpoints ges cf ds = (if ds \<noteq> [] then ds else map toEndpoint ges)"
  by (auto simp: selectGeoEndpoints_def Let_def)

text \<open>
  The code and the specification's wording agree on every input whose matched origins have
  pairwise different URLs, and whenever tags are absent.
\<close>

lemma selectGeoEndpoints_meets_spec:
  assumes "distinct (map url (filter (\<lambda>ge. matchesCfProperties ge c) ges))"
  shows "selectGeoEndpoints ges (Some c) ds = selectGeoEndpoints_spec ges (Some c) ds"
proof (cases "filter (\<lambda>ge. matchesCfProperties ge c) ges = []")
  case True
  then show ?thesis
    by (simp add: selectGeoEndpoints_def selectGeoEndpoints_spec_def Let_def)
next
  case False
  let ?m = "filter (\<lambda>ge. matchesCfProperties ge c) ges"
  have d: "distinct (map url (map toEndpoint ?m))"
    using assms by (simp add: comp_def)
  have "keepUnseen {} (map toEndpoint ?m @ ds @ map toEndpoint ges) =
        map toEndpoint ?m @ keepUnseen (url ` set ?m) (ds @ map toEndpoint ges)"
    using keepUnseen_id [OF d, of "{}"]
    by (simp add: keepUnseen_append [of "{}" "map toEndpoint ?m"] image_image del: set_filter)
  with False show ?thesis
    by (simp add: selectGeoEndpoints_matched selectGeoEndpoints_spec_def Let_def del: set_filter)
qed

lemma selectGeoEndpoints_meets_spec_no_tags:
  "selectGeoEndpoints ges None ds = selectGeoEndpoints_spec ges None ds"
  by (simp add: selectGeoEndpoints_def selectGeoEndpoints_spec_def)

text \<open>
  Claim C2 (the code departs from it). For a request from Germany, two geo origins with the
  URL \<^verbatim>\<open>https://eu.api.example.com\<close> match (one by continent, one by country). The
  claim asks for the matched origins with duplicates by URL removed; the code returns the
  origin twice.
\<close>

theorem selectGeoEndpoints_repeats_matched_url:
  "selectGeoEndpoints geoDup (Some cfEU) [] =
     [endpoint ''https://eu.api.example.com'', endpoint ''https://eu.api.example.com'',
      endpoint ''https://us.api.example.com'']
   \<and> selectGeoEndpoints_spec geoDup (Some cfEU) [] =
     [endpoint ''https://eu.api.example.com'', endpoint ''https://us.api.example.com'']"
  by (simp add: selectGeoEndpoints_def selectGeoEndpoints_spec_def geoDup_def cfEU_def
      geoEndpoint_def endpoint_def matchesCfProperties_def pushMatched_def pushDefault_def
      pushRemaining_def toEndpoint_def)

text \<open>
  Claim C5 (as amended). Without geo steering the candidate list is the configured list as it
  is. With geo steering and no tags or no matching rule it is the fallback list if that is
  not empty, else all geo origins, as they are. With geo steering and at least one matching
  rule whose matched origins have pairwise different raw URLs, the list is the matched
  origins in input order, followed by the fallback origins and then the geo origins whose raw
  URL has not occurred earlier in the list, and no two of its entries have the same raw URL.
\<close>

theorem getEndpointsToTry_raw_url_distinct:
  "(steering options = None \<or> geoEndpoints options = None \<longrightarrow>
      getEndpointsToTry options cf = (case endpoints options of None \<Rightarrow> [] | Some es \<Rightarrow> es))
   \<and> (steering options = Some st \<and> geoEndpoints options = Some ges
        \<and> fallback = (case defaultEndpoints st of None \<Rightarrow> [] | Some ds \<Rightarrow> ds) \<longrightarrow>
        getEndpointsToTry options None = (if fallback \<noteq> [] then fallback else map toEndpoint ges)
        \<and> (filter (\<lambda>ge. matchesCfProperties ge c) ges = [] \<longrightarrow>
             getEndpointsToTry options (Some c) =
               (if fallback \<noteq> [] then fallback else map toEndpoint ges))
        \<and> (filter (\<lambda>ge. matchesCfProperties ge c) ges \<noteq> []
             \<and> distinct (map url (filter (\<lambda>ge. matchesCfProperties ge c) ges)) \<longrightarrow>
             getEndpointsToTry options (Some c) =
               keepUnseen {} (map toEndpoint (filter (\<lambda>ge. matchesCfProperties ge c) ges)
                              @ fallback @ map toEndpoint ges)
             \<and> getEndpointsToTry options (Some c) =
               map toEndpoint (filter (\<lambda>ge. matchesCfProperties ge c) ges)
               @ keepUnseen (url ` set (filter (\<lambda>ge. matchesCfProperties ge c) ges))
                   (fallback @ map toEndpoint ges)
             \<and> distinct (map url (getEndpointsToTry options (Some c)))))"
proof (intro conjI impI)
  assume "steering options = None \<or> geoEndpoints options = None"
  then show "getEndpointsToTry options cf = (case endpoints options of None \<Rightarrow> [] | Some es \<Rightarrow> es)"
    by (auto simp: getEndpointsToTry_def split: option.splits)
next
  assume a: "steering options = Some st \<and> geoEndpoints options = Some ges
        \<and> fallback = (case defaultEndpoints st of None \<Rightarrow> [] | Some ds \<Rightarrow> ds)"
  then have sel: "getEndpointsToTry options t = selectGeoEndpoints ges t fallback" for t
    by (simp add: getEndpointsToTry_def)
  show "getEndpointsToTry options None = (if fallback \<noteq> [] then fallback else map toEndpoint ges)"
    by (simp add: sel selectGeoEndpoints_unmatched)
  let ?m = "filter (\<lambda>ge. matchesCfProperties ge c) ges"
  show "getEndpointsToTry options (Some c) =
          (if fallback \<noteq> [] then fallback else map toEndpoint ges)" if "?m = []"
    using that by (simp add: sel selectGeoEndpoints_unmatched)
  assume m: "?m \<noteq> [] \<and> distinct (map url ?m)"
  let ?rest = "keepUnseen (url ` set ?m) (fallback @ map toEndpoint ges)"
  from m show eq: "getEndpointsToTry options (Some c) = map toEndpoint ?m @ ?rest"
    by (simp add: sel selectGeoEndpoints_matched del: set_filter)
  from m show "getEndpointsToTry options (Some c) =
                 keepUnseen {} (map toEndpoint ?m @ fallback @ map toEndpoint ges)"
    using selectGeoEndpoints_meets_spec [of c ges fallback]
    by (simp add: sel selectGeoEndpoints_spec_def Let_def del: set_filter)
  have d: "distinct (map url ?rest)" by (rule keepUnseen_distinct)
  have f: "url ` set ?rest \<inter> url ` set ?m = {}" by (rule keepUnseen_fresh)
  from m d f have "distinct (map url (map toEndpoint ?m @ ?rest))"
    by (auto simp: comp_def simp del: set_filter)
  with eq show "distinct (map url (getEndpointsToTry options (Some c)))" by simp
qed

theorem getEndpointsToTry_raw_url_distinct_witness:
  "steering geoOptions = Some \<lparr>defaultEndpoints =
        Some [endpoint ''https://us.api.example.com'', endpoint ''https://default.api.example.com'']\<rparr>
   \<and> geoEndpoints geoOptions = Some geoThree
   \<and> filter (\<lambda>ge. matchesCfProperties ge cfEU) geoThree \<noteq> []
   \<and> distinct (map url (filter (\<lambda>ge. matchesCfProperties ge cfEU) geoThree))
   \<and> getEndpointsToTry geoOptions (Some cfEU) =
       [endpoint ''https://eu.api.example.com'', endpoint ''https://us.api.example.com'',
        endpoint ''https://default.api.example.com'', endpoint ''https://asia.api.example.com'']
   \<and> distinct (map url (getEndpointsToTry geoOptions (Some cfEU)))
   \<and> steering flatDupOptions = None
   \<and> getEndpointsToTry flatDupOptions None =
       [endpoint ''https://api.example.com'', endpoint ''https://api.example.com'']"
proof -
  let ?st = "\<lparr>defaultEndpoints =
        Some [endpoint ''https://us.api.example.com'', endpoint ''https://default.api.example.com'']\<rparr>"
  let ?fb = "[endpoint ''https://us.api.example.com'', endpoint ''https://default.api.example.com'']"
  have h: "steering geoOptions = Some ?st \<and> geoEndpoints geoOptions = Some geoThree
      \<and> ?fb = (case defaultEndpoints ?st of None \<Rightarrow> [] | Some ds \<Rightarrow> ds)"
    by (simp add: geoOptions_def)
  have m: "filter (\<lambda>ge. matchesCfProperties ge cfEU) geoThree \<noteq> []
           \<and> distinct (map url (filter (\<lambda>ge. matchesCfProperties ge cfEU) geoThree))"
    by (simp add: geoThree_def cfEU_def geoEndpoint_def matchesCfProperties_def)
  have n: "steering flatDupOptions = None \<or> geoEndpoints flatDupOptions = None"
    by (simp add: flatDupOptions_def)
  note t = getEndpointsToTry_raw_url_distinct [of geoOptions None ?st geoThree ?fb cfEU]
  note u = getEndpointsToTry_raw_url_distinct [of flatDupOptions None]
  note r = t [THEN conjunct2, THEN mp, OF h, THEN conjunct2, THEN conjunct2, THEN mp, OF m]
  note g = r [THEN conjunct1]
  note d = r [THEN conjunct2, THEN conjunct2]
  have e: "keepUnseen {} (map toEndpoint (filter (\<lambda>ge. matchesCfProperties ge cfEU) geoThree)
                            @ ?fb @ map toEndpoint geoThree) =
       [endpoint ''https://eu.api.example.com'', endpoint ''https://us.api.example.com'',
        endpoint ''https://default.api.example.com'', endpoint ''https://asia.api.example.com'']"
    by (simp add: geoThree_def cfEU_def geoEndpoint_def matchesCfProperties_def endpoint_def
        toEndpoint_def)
  from u [THEN conjunct1, THEN mp, OF n]
  have f: "getEndpointsToTry flatDupOptions None =
       [endpoint ''https://api.example.com'', endpoint ''https://api.example.com'']"
    by (simp add: flatDupOptions_def)
  from g e have g': "getEndpointsToTry geoOptions (Some cfEU) =
       [endpoint ''https://eu.api.example.com'', endpoint ''https://us.api.example.com'',
        endpoint ''https://default.api.example.com'', endpoint ''https://asia.api.example.com'']"
    by (rule trans)
  have n': "steering flatDupOptions = None" by (simp add: flatDupOptions_def)
  from h m g' d n' f show ?thesis
    by (intro conjI) (simp_all only: simp_thms)
qed

text \<open>
  Claim C5 as stated fails. A flat configuration that lists an origin twice is tried as it
  is; and the geo selector keys on the raw URL, so a fallback origin written with a trailing
  slash follows the matched origin written without it, although their normalized URLs are
  equal.
\<close>

theorem getEndpointsToTry_normalized_duplicates:
  "getEndpointsToTry flatDupOptions None =
     [endpoint ''https://api.example.com'', endpoint ''https://api.example.com'']
   \<and> \<not> distinct (map normalizedUrl (getEndpointsToTry flatDupOptions None))
   \<and> map url (getEndpointsToTry geoSlashOptions (Some cfEU)) =
     [''https://eu.api.example.com'', ''https://eu.api.example.com/'',
      ''https://us.api.example.com'', ''https://asia.api.example.com'']
   \<and> \<not> distinct (map normalizedUrl (getEndpointsToTry geoSlashOptions (Some cfEU)))"
  by (simp add: getEndpointsToTry_def flatDupOptions_def geoSlashOptions_def geoThree_def
      cfEU_def selectGeoEndpoints_def geoEndpoint_def endpoint_def matchesCfProperties_def
      pushMatched_def pushDefault_def pushRemaining_def toEndpoint_def normalizedUrl_def
      normalizeUrl_def)

section \<open>Properties of the annotation\<close>

lemma decimal_digits:
  "list_all (\<lambda>c. 48 \<le> (of_char c :: nat) \<and> (of_char c :: nat) \<le> 57) (decimal n)"
proof (induction n rule: decimal.induct)
  case (1 n)
  have d: "48 \<le> (of_char (char_of (48 + k :: nat)) :: nat)
           \<and> (of_char (char_of (48 + k :: nat)) :: nat) \<le> 57" if "k < 10" for k
    using that by simp
  show ?case
  proof (cases "n < 10")
    case True
    with d [of n] show ?thesis by (subst decimal.simps) simp
  next
    case False
    with "1" d [of "n mod 10"] show ?thesis by (subst decimal.simps) simp
  qed
qed

lemma String_chars: "list_all (\<lambda>c. 45 \<le> (of_char c :: nat)) (String i)"
proof -
  have "list_all (\<lambda>c. 45 \<le> (of_char c :: nat)) (decimal n)" for n
    using decimal_digits [of n] by (auto simp: list_all_iff)
  then show ?thesis by (simp add: String_def)
qed

lemma whitespace_code: "isHttpWhitespace c \<Longrightarrow> (of_char c :: nat) \<le> 32"
  by (auto simp: isHttpWhitespace_def)

lemma visible_value:
  assumes "list_all (\<lambda>c. 33 \<le> (of_char c :: nat)) v"
  shows "normalizeHeaderValue v = v" and "legalHeaderValue v"
proof -
  have nows: "\<not> isHttpWhitespace c" if "c \<in> set v" for c
    using that assms whitespace_code [of c] by (fastforce simp: list_all_iff)
  have keep: "dropWhile isHttpWhitespace xs = xs" if "set xs \<subseteq> set v" for xs
    using that nows by (cases xs) auto
  have l: "dropWhile isHttpWhitespace v = v"
    by (rule keep) simp
  have "dropWhile isHttpWhitespace (rev v) = rev v"
    by (rule keep) simp
  with l show n: "normalizeHeaderValue v = v"
    by (simp add: normalizeHeaderValue_def)
  have "c \<notin> set [CHR 0x00, CHR 0x0A, CHR 0x0D]" if "c \<in> set v" for c
    using that assms by (fastforce simp: list_all_iff)
  then show "legalHeaderValue v"
    by (simp add: legalHeaderValue_def n list_all_iff)
qed

lemma legal_String: "legalHeaderValue (String i)"
proof -
  have "list_all (\<lambda>c. 33 \<le> (of_char c :: nat)) (String i)"
    using String_chars [of i] by (auto simp: list_all_iff intro: order_trans [of 33 45])
  then show ?thesis by (rule visible_value)
qed

lemma addLoadBalancerHeaders_history:
  "snd (addLoadBalancerHeaders w r e tr st g h) = Now # h"
  by (simp add: addLoadBalancerHeaders_def dateNow_def Let_def)

lemma annotated_history:
  "snd (returnAnnotated (addLoadBalancerHeaders w r e tr st g h)) = Now # h"
  using addLoadBalancerHeaders_history [of w r e tr st g h]
  by (cases "addLoadBalancerHeaders w r e tr st g h" rule: returnAnnotated.cases) simp_all




lemma returnAnnotated_Succeed:
  "fst (returnAnnotated (addLoadBalancerHeaders w r e tr st g h)) = Succeed a \<Longrightarrow>
   fst (addLoadBalancerHeaders w r e tr st g h) = Inr a"
  by (cases "addLoadBalancerHeaders w r e tr st g h" rule: returnAnnotated.cases) simp_all

section \<open>Properties of fail-forward\<close>







section \<open>Properties of the health-gated sequence\<close>








section \<open>Properties of the parallel health race\<close>

lemma promiseAny_nonempty:
  "eps \<noteq> [] \<Longrightarrow> startRace w eps request h = (st, b, winner, h2) \<Longrightarrow>
   promiseAny w eps request h =
     (case winner of
        None \<Rightarrow> (Fail \<lparr>triedEndpoints = eps, lastError = None\<rparr>, h2)
      | Some ep \<Rightarrow>
          (let (gatherTime, h3) = dateNow w h2;
               (result, h4) = forwardRequest w ep request b h3
           in case result of
                Inl error \<Rightarrow>
                  (Fail \<lparr>triedEndpoints = eps, lastError = Some (ForwardFailure error)\<rparr>, h4)
              | Inr response \<Rightarrow>
                  returnAnnotated
                    (addLoadBalancerHeaders w response ep [ep] st gatherTime h4)))"
  by (auto simp: promiseAny_def promiseAny_race_def startRace_def Let_def
      split: prod.splits option.splits sum.splits)

text \<open>
  Claim C3. With no candidates the parallel health race fails at once, with an empty tried
  list and without contacting anything. When the race ends without a healthy candidate
  (the outcome \<open>None\<close> of the timed race), it fails with all candidates as tried list. When
  the forward attempt at the winner fails, it fails with all candidates as tried list, and
  the forward error as last error.
\<close>

theorem promiseAny_exhaustion:
  "promiseAny w [] request h = (Fail \<lparr>triedEndpoints = [], lastError = None\<rparr>, Now # h)
   \<and> (eps \<noteq> [] \<and> startRace w eps request h = (startTime, bufferedBody, None, h2) \<longrightarrow>
        fst (promiseAny w eps request h) = Fail \<lparr>triedEndpoints = eps, lastError = None\<rparr>)
   \<and> (eps \<noteq> [] \<and> startRace w eps request h = (startTime, bufferedBody, Some winner, h2)
        \<and> fst (forwardRequest w winner request bufferedBody (snd (dateNow w h2))) = Inl error \<longrightarrow>
        fst (promiseAny w eps request h) =
          Fail \<lparr>triedEndpoints = eps, lastError = Some (ForwardFailure error)\<rparr>)"
proof (intro conjI impI)
  show "promiseAny w [] request h = (Fail \<lparr>triedEndpoints = [], lastError = None\<rparr>, Now # h)"
    by (simp add: promiseAny_def dateNow_def)
next
  assume "eps \<noteq> [] \<and> startRace w eps request h = (startTime, bufferedBody, None, h2)"
  then show "fst (promiseAny w eps request h) = Fail \<lparr>triedEndpoints = eps, lastError = None\<rparr>"
    by (simp add: promiseAny_nonempty)
next
  assume "eps \<noteq> [] \<and> startRace w eps request h = (startTime, bufferedBody, Some winner, h2)
        \<and> fst (forwardRequest w winner request bufferedBody (snd (dateNow w h2))) = Inl error"
  then show "fst (promiseAny w eps request h) =
          Fail \<lparr>triedEndpoints = eps, lastError = Some (ForwardFailure error)\<rparr>"
    by (auto simp: promiseAny_nonempty Let_def split: prod.splits)
qed

theorem promiseAny_exhaustion_witness:
  "[epB, epC] \<noteq> []
   \<and> startRace (demoWorld None) [epB, epC] getRequest [] =
       (1000, None, None, [HealthRace [epB, epC], Now])
   \<and> fst (promiseAny (demoWorld None) [epB, epC] getRequest []) =
       Fail \<lparr>triedEndpoints = [epB, epC], lastError = None\<rparr>
   \<and> startRace (demoWorld (Some epA)) [epB, epA, epC] getRequest [] =
       (1000, None, Some epA, [HealthRace [epB, epA, epC], Now])
   \<and> fst (forwardRequest (demoWorld (Some epA)) epA getRequest None
            (snd (dateNow (demoWorld (Some epA)) [HealthRace [epB, epA, epC], Now]))) =
       Inl (RequestForwardError (OfEndpoint epA) ''connection refused'')
   \<and> fst (promiseAny (demoWorld (Some epA)) [epB, epA, epC] getRequest []) =
       Fail \<lparr>triedEndpoints = [epB, epA, epC],
            lastError = Some (ForwardFailure
                          (RequestForwardError (OfEndpoint epA) ''connection refused''))\<rparr>"
proof -
  have n2: "[epB, epC] \<noteq> []" and n3: "[epB, epA, epC] \<noteq> []"
    by simp_all
  have r0: "startRace (demoWorld None) [epB, epC] getRequest [] =
       (1000, None, None, [HealthRace [epB, epC], Now])"
    by code_simp
  have r1: "startRace (demoWorld (Some epA)) [epB, epA, epC] getRequest [] =
       (1000, None, Some epA, [HealthRace [epB, epA, epC], Now])"
    by code_simp
  have f1: "fst (forwardRequest (demoWorld (Some epA)) epA getRequest None
            (snd (dateNow (demoWorld (Some epA)) [HealthRace [epB, epA, epC], Now]))) =
       Inl (RequestForwardError (OfEndpoint epA) ''connection refused'')"
    by code_simp
  note t = promiseAny_exhaustion [of "demoWorld None" getRequest "[]" "[epB, epC]" 1000 None
      "[HealthRace [epB, epC], Now]"]
  note u = promiseAny_exhaustion [of "demoWorld (Some epA)" getRequest "[]" "[epB, epA, epC]"
      1000 None "[HealthRace [epB, epA, epC], Now]" epA
      "RequestForwardError (OfEndpoint epA) ''connection refused''"]
  from t [THEN conjunct2, THEN conjunct1, THEN mp, OF conjI [OF n2 r0]]
  have c2: "fst (promiseAny (demoWorld None) [epB, epC] getRequest []) =
       Fail \<lparr>triedEndpoints = [epB, epC], lastError = None\<rparr>" .
  from u [THEN conjunct2, THEN conjunct2, THEN mp, OF conjI [OF n3 conjI [OF r1 f1]]]
  have c3: "fst (promiseAny (demoWorld (Some epA)) [epB, epA, epC] getRequest []) =
       Fail \<lparr>triedEndpoints = [epB, epA, epC],
            lastError = Some (ForwardFailure
                          (RequestForwardError (OfEndpoint epA) ''connection refused''))\<rparr>" .
  from n2 r0 c2 r1 f1 c3 show ?thesis by (intro conjI)
qed

section \<open>Empty candidate lists\<close>

lemma bufferRequestBody_no_attempt:
  "filter isAttempt (snd (bufferRequestBody request h)) = filter isAttempt h"
  by (simp add: bufferRequestBody_def split: RequestBody.splits sum.splits)

lemma bufferRequestBody_result:
  "fst (bufferRequestBody request h) = fst (bufferRequestBody request h')"
  by (simp add: bufferRequestBody_def split: RequestBody.splits sum.splits)

text \<open>
  Claim C10. Called with an empty candidate list, fail-forward and the health-gated sequence
  make no forward attempt and no health check, and fail with the exhaustion error whose tried
  list is empty and whose last error is the body-buffering failure if buffering failed, and is
  absent otherwise.
\<close>

theorem empty_candidates_exhaustion:
  "fst (failForward w [] request fso h) =
     Fail \<lparr>triedEndpoints = [],
          lastError = (case fst (bufferRequestBody request (Now # h)) of
                         Inl error \<Rightarrow> Some (ForwardFailure error)
                       | Inr b \<Rightarrow> None)\<rparr>
   \<and> filter isAttempt (snd (failForward w [] request fso h)) = filter isAttempt h
   \<and> fst (asyncBlock w [] request h) =
     Fail \<lparr>triedEndpoints = [],
          lastError = (case fst (bufferRequestBody request (Now # h)) of
                         Inl error \<Rightarrow> Some (ForwardFailure error)
                       | Inr b \<Rightarrow> None)\<rparr>
   \<and> filter isAttempt (snd (asyncBlock w [] request h)) = filter isAttempt h"
proof -
  obtain r h1 where b: "bufferRequestBody request (Now # h) = (r, h1)"
    by (cases "bufferRequestBody request (Now # h)")
  have h1: "filter isAttempt h1 = filter isAttempt h"
    using bufferRequestBody_no_attempt [of request "Now # h"] b by simp
  show ?thesis
    by (cases r) (simp_all add: failForward_def asyncBlock_def dateNow_def b h1)
qed

section \<open>Trace headers\<close>

lemma headers_has_filter:
  "lowerName n \<noteq> lowerName m \<Longrightarrow>
   headers_has n (filter (\<lambda>kv. lowerName (fst kv) \<noteq> lowerName m) hs) = headers_has n hs"
  by (induction hs) (auto simp: headers_has_def)

lemma headers_has_set_other:
  "lowerName n \<noteq> lowerName m \<Longrightarrow> headers_has n (headers_set m v hs) = headers_has n hs"
proof (induction hs)
  case Nil
  then show ?case by (simp add: headers_has_def)
next
  case (Cons kv hs)
  show ?case
  proof (cases "lowerName (fst kv) = lowerName m")
    case True
    have "headers_has n ((fst kv, v) # filter (\<lambda>kv'. lowerName (fst kv') \<noteq> lowerName m) hs)
          = headers_has n (kv # hs)"
      using headers_has_filter [OF Cons.prems, of hs] True Cons.prems
      by (auto simp: headers_has_def)
    with True show ?thesis by simp
  next
    case False
    with Cons show ?thesis by (auto simp: headers_has_def)
  qed
qed

lemma trace_header_names:
  "lowerName HEADERS_TRIED_COUNT \<noteq> lowerName HEADERS_ENDPOINT"
  "lowerName HEADERS_TRIED_COUNT \<noteq> lowerName HEADERS_LATENCY"
  "lowerName HEADERS_TRIED_COUNT \<noteq> lowerName HEADERS_GATHER_LATENCY"
  "lowerName HEADERS_TRIED_ENDPOINTS \<noteq> lowerName HEADERS_ENDPOINT"
  "lowerName HEADERS_TRIED_ENDPOINTS \<noteq> lowerName HEADERS_LATENCY"
  "lowerName HEADERS_TRIED_ENDPOINTS \<noteq> lowerName HEADERS_GATHER_LATENCY"
  by code_simp+

text \<open>With a single tried origin the annotation leaves the two trace headers as they were.\<close>

lemma addLoadBalancerHeaders_single:
  assumes "fst (addLoadBalancerHeaders w r e [e'] st g h) = Inr a"
  shows "headers_has HEADERS_TRIED_COUNT (headers a) = headers_has HEADERS_TRIED_COUNT (headers r)"
    and "headers_has HEADERS_TRIED_ENDPOINTS (headers a)
           = headers_has HEADERS_TRIED_ENDPOINTS (headers r)"
  using assms
  by (auto simp: addLoadBalancerHeaders_def dateNow_def Let_def Headers_set_def legal_String
      newResponse_def headers_has_set_other trace_header_names split: if_splits)

text \<open>
  Claim C9 (as amended). A successful parallel health race annotates the winner's response
  with a tried list holding the winner only, so the annotation adds neither
  \<^verbatim>\<open>X-Load-Balancer-Tried-Count\<close> nor \<^verbatim>\<open>X-Load-Balancer-Tried-Endpoints\<close>, however many
  candidates were raced: each of the two headers is on the result exactly when the origin's
  own response carried it.
\<close>

theorem promiseAny_success_trace_headers:
  assumes "fst (promiseAny w eps request h) = Succeed annotated"
  shows "\<exists>winner response startTime bufferedBody gatherTime h2 h3.
           startRace w eps request h = (startTime, bufferedBody, Some winner, h2)
         \<and> forwardRequest w winner request bufferedBody (snd (dateNow w h2)) = (Inr response, h3)
         \<and> fst (addLoadBalancerHeaders w response winner [winner] startTime gatherTime h3)
             = Inr annotated
         \<and> headers_has HEADERS_TRIED_COUNT (headers annotated)
             = headers_has HEADERS_TRIED_COUNT (headers response)
         \<and> headers_has HEADERS_TRIED_ENDPOINTS (headers annotated)
             = headers_has HEADERS_TRIED_ENDPOINTS (headers response)"
proof -
  from assms have ne: "eps \<noteq> []"
    by (auto simp: promiseAny_def Let_def split: prod.splits)
  obtain st b winner h2 where r: "startRace w eps request h = (st, b, winner, h2)"
    by (cases "startRace w eps request h")
  obtain g h3 where g: "dateNow w h2 = (g, h3)" by (cases "dateNow w h2")
  from assms promiseAny_nonempty [OF ne r] obtain ep where wn: "winner = Some ep"
    by (cases winner) auto
  obtain res h4 where f: "forwardRequest w ep request b h3 = (res, h4)"
    by (cases "forwardRequest w ep request b h3")
  from assms promiseAny_nonempty [OF ne r] wn g f obtain response where res: "res = Inr response"
    by (cases res) auto
  from assms promiseAny_nonempty [OF ne r] wn g f res
  have a: "fst (addLoadBalancerHeaders w response ep [ep] st g h4) = Inr annotated"
    by (simp add: returnAnnotated_Succeed)
  show ?thesis
    using r wn g f res a addLoadBalancerHeaders_single [OF a]
    by (intro exI [of _ ep] exI [of _ response] exI [of _ st] exI [of _ b] exI [of _ g]
        exI [of _ h2] exI [of _ h4]) simp
qed

theorem promiseAny_success_trace_headers_witness:
  "fst (promiseAny (demoWorld (Some epC)) [epA, epB, epC] getRequest []) =
     Succeed \<lparr>status = 200, statusText = ''OK'',
          headers = [(''content-type'', ''text/plain''),
                     (''X-Load-Balancer-Endpoint'', ''https://c.example.com''),
                     (''X-Load-Balancer-Latency'', ''28''),
                     (''X-Load-Balancer-Endpoint-Gather-Latency'', ''14'')],
          body = Some ''hello''\<rparr>
   \<and> \<not> headers_has HEADERS_TRIED_COUNT
         [(''content-type'', ''text/plain''),
          (''X-Load-Balancer-Endpoint'', ''https://c.example.com''),
          (''X-Load-Balancer-Latency'', ''28''),
          (''X-Load-Balancer-Endpoint-Gather-Latency'', ''14'')]
   \<and> \<not> headers_has HEADERS_TRIED_ENDPOINTS
         [(''content-type'', ''text/plain''),
          (''X-Load-Balancer-Endpoint'', ''https://c.example.com''),
          (''X-Load-Balancer-Latency'', ''28''),
          (''X-Load-Balancer-Endpoint-Gather-Latency'', ''14'')]"
proof -
  let ?w = "demoWorld (Some epC)"
  let ?hs = "[(''content-type'', ''text/plain''),
              (''X-Load-Balancer-Endpoint'', ''https://c.example.com''),
              (''X-Load-Balancer-Latency'', ''28''),
              (''X-Load-Balancer-Endpoint-Gather-Latency'', ''14'')]"
  let ?r = "\<lparr>status = 200, statusText = ''OK'', headers = ?hs, body = Some ''hello''\<rparr>"
  have run: "fst (promiseAny ?w [epA, epB, epC] getRequest []) = Succeed ?r"
    by code_simp
  have race: "startRace ?w [epA, epB, epC] getRequest [] =
                (1000, None, Some epC, [HealthRace [epA, epB, epC], Now])"
    by code_simp
  have fwd: "fst (forwardRequest ?w epC getRequest None
                    (snd (dateNow ?w [HealthRace [epA, epB, epC], Now]))) = Inr resp200"
    by code_simp
  have origin: "\<not> headers_has HEADERS_TRIED_COUNT (headers resp200)"
    "\<not> headers_has HEADERS_TRIED_ENDPOINTS (headers resp200)"
    by code_simp+
  from promiseAny_success_trace_headers [OF run] race fwd origin
  have "\<not> headers_has HEADERS_TRIED_COUNT (headers ?r)
        \<and> \<not> headers_has HEADERS_TRIED_ENDPOINTS (headers ?r)"
    by auto
  with run show ?thesis by simp
qed

text \<open>
  Claim C9 as stated fails. When the winning origin is itself a load balancer that answered
  after a failover, its response carries both trace headers, and they are present on the
  result of a successful parallel health race.
\<close>

theorem promiseAny_success_with_trace_headers:
  "fst (promiseAny chainedWorld [epA, epC] getRequest []) =
     Succeed \<lparr>status = 200, statusText = ''OK'',
          headers = [(''x-load-balancer-tried-count'', ''2''),
                     (''x-load-balancer-tried-endpoints'', ''https://x.internal, https://y.internal''),
                     (''X-Load-Balancer-Endpoint'', ''https://c.example.com''),
                     (''X-Load-Balancer-Latency'', ''28''),
                     (''X-Load-Balancer-Endpoint-Gather-Latency'', ''14'')],
          body = Some ''hello''\<rparr>
   \<and> headers_has HEADERS_TRIED_COUNT
         [(''x-load-balancer-tried-count'', ''2''),
          (''x-load-balancer-tried-endpoints'', ''https://x.internal, https://y.internal''),
          (''X-Load-Balancer-Endpoint'', ''https://c.example.com''),
          (''X-Load-Balancer-Latency'', ''28''),
          (''X-Load-Balancer-Endpoint-Gather-Latency'', ''14'')]
   \<and> headers_has HEADERS_TRIED_ENDPOINTS
         [(''x-load-balancer-tried-count'', ''2''),
          (''x-load-balancer-tried-endpoints'', ''https://x.internal, https://y.internal''),
          (''X-Load-Balancer-Endpoint'', ''https://c.example.com''),
          (''X-Load-Balancer-Latency'', ''28''),
          (''X-Load-Balancer-Endpoint-Gather-Latency'', ''14'')]"
  by code_simp

section \<open>Failure of the body buffer\<close>

lemma proceedsWithNullBodyI:
  "h' = new @ h \<Longrightarrow> list_all sendsNoBody new \<Longrightarrow> eps = [] \<or> list_ex isAttempt new \<Longrightarrow>
   proceedsWithNullBody eps h h'"
  by (simp add: proceedsWithNullBody_def newEvents_def)

lemma forwardRequest_null_body:
  "\<exists>c. snd (forwardRequest w e rq None h) = Fetch c # h \<and> fetch_body c = None"
  by (simp add: forwardRequest_def Let_def)

lemma failForward_loop_null_body:
  "\<exists>new. snd (failForward_loop w rq None fs st es tr le h) = new @ h
         \<and> list_all sendsNoBody new \<and> (es = [] \<or> list_ex isAttempt new)"
proof (induction es arbitrary: tr le h)
  case Nil
  then show ?case by simp
next
  case (Cons e es)
  obtain c where c: "snd (forwardRequest w e rq None (Now # h)) = Fetch c # Now # h"
    and nb: "fetch_body c = None"
    using forwardRequest_null_body [of w e rq "Now # h"] by blast
  obtain r0 where f: "forwardRequest w e rq None (Now # h) = (r0, Fetch c # Now # h)"
    using c by (cases "forwardRequest w e rq None (Now # h)") simp
  consider (stop)
      "snd (failForward_loop w rq None fs st (e # es) tr le h) = Now # Fetch c # Now # h"
    | (go) le' where
      "failForward_loop w rq None fs st (e # es) tr le h =
       failForward_loop w rq None fs st es (tr @ [e]) le' (Fetch c # Now # h)"
  proof (cases r0)
    case (Inl error)
    then show ?thesis
      using go [of "Some (ForwardFailure error)"] by (simp add: dateNow_def f)
  next
    case (Inr response)
    then show ?thesis
      using go [of "Some (StatusFailure (status response))"] stop
      by (cases "status response \<in> set fs") (simp_all add: dateNow_def f annotated_history)
  qed
  then show ?case
  proof cases
    case stop
    with nb show ?thesis
      by (intro exI [of _ "[Now, Fetch c, Now]"]) simp
  next
    case (go le')
    from Cons.IH [of "tr @ [e]" le' "Fetch c # Now # h"] obtain new where
      "snd (failForward_loop w rq None fs st es (tr @ [e]) le' (Fetch c # Now # h))
         = new @ Fetch c # Now # h" and "list_all sendsNoBody new"
      by blast
    with go nb show ?thesis
      by (intro exI [of _ "new @ [Fetch c, Now]"]) simp
  qed
qed

lemma asyncBlock_loop_null_body:
  "\<exists>new. snd (asyncBlock_loop w rq None st es tr le h) = new @ h
         \<and> list_all sendsNoBody new \<and> (es = [] \<or> list_ex isAttempt new)"
proof (induction es arbitrary: tr le h)
  case Nil
  then show ?case by simp
next
  case (Cons e es)
  let ?h2 = "HealthCheck e # Now # h"
  obtain c where c: "snd (forwardRequest w e rq None ?h2) = Fetch c # ?h2"
    and nb: "fetch_body c = None"
    using forwardRequest_null_body [of w e rq ?h2] by blast
  obtain r0 where f: "forwardRequest w e rq None ?h2 = (r0, Fetch c # ?h2)"
    using c by (cases "forwardRequest w e rq None ?h2") simp
  consider (stop) 
      "snd (asyncBlock_loop w rq None st (e # es) tr le h) = Now # Fetch c # ?h2"
    | (forwarded) le' where
      "asyncBlock_loop w rq None st (e # es) tr le h =
       asyncBlock_loop w rq None st es (tr @ [e]) le' (Fetch c # ?h2)"
    | (unhealthy) le' where
      "asyncBlock_loop w rq None st (e # es) tr le h =
       asyncBlock_loop w rq None st es (tr @ [e]) le' ?h2"
    by (cases "check w (Now # h) e"; cases r0)
      (auto simp: dateNow_def healthCheck_def f annotated_history Let_def)
  then show ?case
  proof cases
    case stop
    with nb show ?thesis
      by (intro exI [of _ "[Now, Fetch c, HealthCheck e, Now]"]) simp
  next
    case (forwarded le')
    from Cons.IH [of "tr @ [e]" le' "Fetch c # ?h2"] obtain new where
      "snd (asyncBlock_loop w rq None st es (tr @ [e]) le' (Fetch c # ?h2))
         = new @ Fetch c # ?h2" and "list_all sendsNoBody new"
      by blast
    with forwarded nb show ?thesis
      by (intro exI [of _ "new @ [Fetch c, HealthCheck e, Now]"]) simp
  next
    case (unhealthy le')
    from Cons.IH [of "tr @ [e]" le' ?h2] obtain new where
      "snd (asyncBlock_loop w rq None st es (tr @ [e]) le' ?h2) = new @ ?h2"
      and "list_all sendsNoBody new"
      by blast
    with unhealthy show ?thesis
      by (intro exI [of _ "new @ [HealthCheck e, Now]"]) simp
  qed
qed

lemma promiseAny_race_null_body:
  "\<exists>new. snd (promiseAny_race w eps rq None st h) = new @ h
         \<and> list_all sendsNoBody new \<and> list_ex isAttempt new"
proof (cases "race w h eps")
  case None
  then show ?thesis
    by (intro exI [of _ "[HealthRace eps]"]) (simp add: promiseAny_race_def raceHealthChecks_def)
next
  case (Some e)
  let ?h2 = "Now # HealthRace eps # h"
  obtain c where c: "snd (forwardRequest w e rq None ?h2) = Fetch c # ?h2"
    and nb: "fetch_body c = None"
    using forwardRequest_null_body [of w e rq ?h2] by blast
  obtain r0 where f: "forwardRequest w e rq None ?h2 = (r0, Fetch c # ?h2)"
    using c by (cases "forwardRequest w e rq None ?h2") simp
  show ?thesis
  proof (cases r0)
    case (Inl error)
    with Some nb show ?thesis
      by (intro exI [of _ "[Fetch c, Now, HealthRace eps]"])
        (simp add: promiseAny_race_def raceHealthChecks_def dateNow_def f)
  next
    case (Inr response)
    with Some nb show ?thesis
      by (intro exI [of _ "[Now, Fetch c, Now, HealthRace eps]"])
        (simp add: promiseAny_race_def raceHealthChecks_def dateNow_def f annotated_history)
  qed
qed


lemma bufferRequestBody_failed:
  "fst (bufferRequestBody request h) = Inl error \<Longrightarrow>
   bufferRequestBody request h = (Inl error, ReadBody # h)"
  by (auto simp: bufferRequestBody_def split: if_splits RequestBody.splits sum.splits)

text \<open>
  Claim C6 (as amended). In all three strategies a failure while buffering the request body
  does not abort the dispatch: the strategy goes on to its candidates, and every forward is
  made with a null body. Fail-forward and the health-gated sequence record the failure as the
  initial last error of their candidate loop. The parallel health race does not record it: it
  runs the race with a null body and no last error, and fails without a last error when the
  race has no winner.
\<close>

theorem buffering_failure_handling:
  assumes "fst (bufferRequestBody request (Now # h)) = Inl error"
  shows "failForward w eps request (Some fs) h =
           failForward_loop w request None fs (clock w h) eps []
             (Some (ForwardFailure error)) (ReadBody # Now # h)
       \<and> proceedsWithNullBody eps h (snd (failForward w eps request (Some fs) h))
       \<and> asyncBlock w eps request h =
           asyncBlock_loop w request None (clock w h) eps []
             (Some (ForwardFailure error)) (ReadBody # Now # h)
       \<and> proceedsWithNullBody eps h (snd (asyncBlock w eps request h))
       \<and> (eps \<noteq> [] \<longrightarrow>
            promiseAny w eps request h =
              promiseAny_race w eps request None (clock w h) (ReadBody # Now # h))
       \<and> proceedsWithNullBody eps h (snd (promiseAny w eps request h))
       \<and> (eps \<noteq> [] \<and> race w (ReadBody # Now # h) eps = None \<longrightarrow>
            fst (promiseAny w eps request h) = Fail \<lparr>triedEndpoints = eps, lastError = None\<rparr>)"
proof -
  note b = bufferRequestBody_failed [OF assms]
  let ?h1 = "ReadBody # Now # h"
  have ff: "failForward w eps request (Some fs) h =
           failForward_loop w request None fs (clock w h) eps []
             (Some (ForwardFailure error)) ?h1"
    by (simp add: failForward_def dateNow_def b)
  have ab: "asyncBlock w eps request h =
           asyncBlock_loop w request None (clock w h) eps [] (Some (ForwardFailure error)) ?h1"
    by (simp add: asyncBlock_def dateNow_def b)
  have pa: "promiseAny w eps request h = promiseAny_race w eps request None (clock w h) ?h1"
    if "eps \<noteq> []"
    using that by (simp add: promiseAny_def dateNow_def b)
  have ffp: "proceedsWithNullBody eps h (snd (failForward w eps request (Some fs) h))"
  proof -
    obtain new where "snd (failForward w eps request (Some fs) h) = new @ ?h1"
      and "list_all sendsNoBody new" and "eps = [] \<or> list_ex isAttempt new"
      using failForward_loop_null_body [of w request fs "clock w h" eps "[]" _ ?h1] ff
      by metis
    then show ?thesis
      by (intro proceedsWithNullBodyI [of _ "new @ [ReadBody, Now]"]) auto
  qed
  have abp: "proceedsWithNullBody eps h (snd (asyncBlock w eps request h))"
  proof -
    obtain new where "snd (asyncBlock w eps request h) = new @ ?h1"
      and "list_all sendsNoBody new" and "eps = [] \<or> list_ex isAttempt new"
      using asyncBlock_loop_null_body [of w request "clock w h" eps "[]" _ ?h1] ab
      by metis
    then show ?thesis
      by (intro proceedsWithNullBodyI [of _ "new @ [ReadBody, Now]"]) auto
  qed
  have pap: "proceedsWithNullBody eps h (snd (promiseAny w eps request h))"
  proof (cases "eps = []")
    case True
    then show ?thesis
      by (intro proceedsWithNullBodyI [of _ "[Now]"]) (simp_all add: promiseAny_def dateNow_def)
  next
    case False
    obtain new where "snd (promiseAny w eps request h) = new @ ?h1"
      and "list_all sendsNoBody new" and "list_ex isAttempt new"
      using promiseAny_race_null_body [of w eps request "clock w h" ?h1] pa [OF False]
      by metis
    then show ?thesis
      by (intro proceedsWithNullBodyI [of _ "new @ [ReadBody, Now]"]) auto
  qed
  have pat: "fst (promiseAny w eps request h) = Fail \<lparr>triedEndpoints = eps, lastError = None\<rparr>"
    if "eps \<noteq> [] \<and> race w ?h1 eps = None"
    using that pa by (simp add: promiseAny_race_def raceHealthChecks_def)
  from ff ab pa ffp abp pap pat show ?thesis by blast
qed

theorem buffering_failure_handling_witness:
  "fst (bufferRequestBody brokenPost [Now]) =
     Inl (RequestForwardError (UrlOnly ''https://lb.example.com/api'') ''stream errored'')
   \<and> [epA, epB] \<noteq> []
   \<and> race (demoWorld None) [ReadBody, Now] [epA, epB] = None
   \<and> proceedsWithNullBody [epA, epB] [] (snd (failForward (demoWorld None) [epA, epB] brokenPost
         (Some [502, 503, 504]) []))
   \<and> proceedsWithNullBody [epA, epB] [] (snd (asyncBlock (demoWorld None) [epA, epB] brokenPost []))
   \<and> proceedsWithNullBody [epA, epB] [] (snd (promiseAny (demoWorld None) [epA, epB] brokenPost []))
   \<and> fst (promiseAny (demoWorld None) [epA, epB] brokenPost []) =
       Fail \<lparr>triedEndpoints = [epA, epB], lastError = None\<rparr>"
proof -
  have b: "fst (bufferRequestBody brokenPost [Now]) =
     Inl (RequestForwardError (UrlOnly ''https://lb.example.com/api'') ''stream errored'')"
    by code_simp
  have n: "[epA, epB] \<noteq> []" by simp
  have r: "race (demoWorld None) [ReadBody, Now] [epA, epB] = None"
    by (simp add: demoWorld_def)
  note t = buffering_failure_handling [OF b, of "demoWorld None" "[epA, epB]" "[502, 503, 504]"]
  from t n r show ?thesis
    using b by blast
qed

text \<open>
  Claim C6 as stated fails for the parallel health race. The body of the request cannot be
  read and the race has no winner, so no later failure could replace a recorded one; the
  exhaustion error has no last error. Fail-forward, on no candidates, reports the buffering
  failure.
\<close>

theorem promiseAny_drops_buffering_failure:
  "fst (bufferRequestBody brokenPost [Now]) =
     Inl (RequestForwardError (UrlOnly ''https://lb.example.com/api'') ''stream errored'')
   \<and> fst (promiseAny (demoWorld None) [epB] brokenPost []) =
       Fail \<lparr>triedEndpoints = [epB], lastError = None\<rparr>
   \<and> fst (failForward (demoWorld None) [] brokenPost (Some [502, 503, 504]) []) =
       Fail \<lparr>triedEndpoints = [],
            lastError = Some (ForwardFailure (RequestForwardError
                          (UrlOnly ''https://lb.example.com/api'') ''stream errored''))\<rparr>"
  by code_simp

end
